theory Spec2Isabelle
  imports Complex_Main "HOL-Library.AList" "HOL-Library.Sublist"
begin

section \<open>Python values and dictionaries\<close>

text \<open>
  The workflow states of the four example graphs are Python dictionaries from field names
  to strings, booleans, floats and nested dictionaries.  A dictionary is an association
  list with lookup by \<open>map_of\<close>; a float is a real number (the only arithmetic in the
  source compares the literals 500000.00 and 100000.0, both of which a binary64 float
  holds exactly).  Characters are code points below 256.
\<close>

datatype val =
    VStr string
  | VBool bool
  | VFloat real
  | VDict "(string \<times> val) list"

type_synonym pydict = "(string \<times> val) list"

datatype pyerr =
    KeyError string
  | AttributeError
  | TypeError

text \<open>\<open>d[k]\<close>: the value stored under \<open>k\<close>, or \<open>KeyError\<close>.\<close>

definition getitem :: "pydict \<Rightarrow> string \<Rightarrow> pyerr + val" where
  "getitem d k = (case map_of d k of None \<Rightarrow> Inl (KeyError k) | Some v \<Rightarrow> Inr v)"

text \<open>\<open>d.get(k, default)\<close> on a value: only a dictionary has the method.\<close>

definition dict_get :: "val \<Rightarrow> string \<Rightarrow> val \<Rightarrow> pyerr + val" where
  "dict_get v k dflt =
     (case v of
        VDict d \<Rightarrow> (case map_of d k of None \<Rightarrow> Inr dflt | Some x \<Rightarrow> Inr x)
      | _ \<Rightarrow> Inl AttributeError)"

text \<open>
  \<open>str.lower\<close> on code points below 256: the ASCII capitals and the Latin-1 capitals
  (192 to 222 without the multiplication sign 215) move up by 32.
\<close>

definition lower_char :: "char \<Rightarrow> char" where
  "lower_char c =
     (let n = (of_char c :: nat) in
      if (65 \<le> n \<and> n \<le> 90) \<or> (192 \<le> n \<and> n \<le> 222 \<and> n \<noteq> 215)
      then char_of (n + 32) else c)"

definition lower :: "string \<Rightarrow> string" where
  "lower s = map lower_char s"

text \<open>\<open>v.lower()\<close> on a value: only a string has the method.\<close>

definition val_lower :: "val \<Rightarrow> pyerr + string" where
  "val_lower v = (case v of VStr s \<Rightarrow> Inr (lower s) | _ \<Rightarrow> Inl AttributeError)"

text \<open>\<open>needle in hay\<close> on two strings: a contiguous occurrence.\<close>

definition str_in :: "string \<Rightarrow> string \<Rightarrow> bool" where
  "str_in needle hay = sublist needle hay"

text \<open>\<open>len(v)\<close>: defined on strings and dictionaries.\<close>

definition val_len :: "val \<Rightarrow> pyerr + nat" where
  "val_len v =
     (case v of
        VStr s \<Rightarrow> Inr (length s)
      | VDict d \<Rightarrow> Inr (length d)
      | _ \<Rightarrow> Inl TypeError)"

text \<open>Truth value of a value in a condition.\<close>

definition truthy :: "val \<Rightarrow> bool" where
  "truthy v =
     (case v of
        VStr s \<Rightarrow> s \<noteq> []
      | VBool b \<Rightarrow> b
      | VFloat r \<Rightarrow> r \<noteq> 0
      | VDict d \<Rightarrow> d \<noteq> [])"

section \<open>basic\_graph.py: the nodes\<close>

text \<open>The label chosen by the \<open>if/elif/else\<close> of both \<open>classify_document\<close> functions.\<close>

definition classify_label :: "string \<Rightarrow> string" where
  "classify_label doc =
     (if str_in ''loan'' doc then ''loan_disclosure''
      else if str_in ''appraisal'' doc then ''appraisal''
      else ''unknown'')"

definition basic_classify_document :: "pydict \<Rightarrow> pyerr + pydict" where
  "basic_classify_document state =
     (case getitem state ''document'' of
        Inl e \<Rightarrow> Inl e
      | Inr v \<Rightarrow>
          (case val_lower v of
             Inl e \<Rightarrow> Inl e
           | Inr doc \<Rightarrow> Inr [(''classification'', VStr (classify_label doc))]))"

definition basic_extract_data :: "pydict \<Rightarrow> pyerr + pydict" where
  "basic_extract_data state =
     (case getitem state ''classification'' of
        Inl e \<Rightarrow> Inl e
      | Inr c \<Rightarrow>
          (case getitem state ''document'' of
             Inl e \<Rightarrow> Inl e
           | Inr d \<Rightarrow>
               (case val_len d of
                  Inl e \<Rightarrow> Inl e
                | Inr n \<Rightarrow>
                    Inr [(''extracted_data'',
                          VDict [(''type'', c), (''has_content'', VBool (n > 0))])])))"

text \<open>
  \<open>a and b\<close> yields \<open>a\<close> when \<open>a\<close> is false and the value of \<open>b\<close> otherwise; the
  first operand here is a comparison, hence \<open>False\<close> when it fails.
\<close>

definition validate_data :: "pydict \<Rightarrow> pyerr + pydict" where
  "validate_data state =
     (case getitem state ''classification'' of
        Inl e \<Rightarrow> Inl e
      | Inr c \<Rightarrow>
          if c = VStr ''unknown'' then Inr [(''is_valid'', VBool False)]
          else
            (case getitem state ''extracted_data'' of
               Inl e \<Rightarrow> Inl e
             | Inr x \<Rightarrow>
                 (case dict_get x ''has_content'' (VBool False) of
                    Inl e \<Rightarrow> Inl e
                  | Inr r \<Rightarrow> Inr [(''is_valid'', r)])))"

section \<open>conditional\_graph.py: the nodes and the router\<close>

definition conditional_classify_document :: "pydict \<Rightarrow> pyerr + pydict" where
  "conditional_classify_document state =
     (case getitem state ''document'' of
        Inl e \<Rightarrow> Inl e
      | Inr v \<Rightarrow>
          (case val_lower v of
             Inl e \<Rightarrow> Inl e
           | Inr doc \<Rightarrow> Inr [(''classification'', VStr (classify_label doc))]))"

definition conditional_extract_data :: "pydict \<Rightarrow> pyerr + pydict" where
  "conditional_extract_data state =
     (case getitem state ''classification'' of
        Inl e \<Rightarrow> Inl e
      | Inr c \<Rightarrow>
          Inr [(''extracted_data'', VDict [(''type'', c), (''processed'', VBool True)])])"

definition conditional_handle_unknown :: "pydict \<Rightarrow> pyerr + pydict" where
  "conditional_handle_unknown state =
     Inr [(''error_message'',
           VStr ''Document type not recognized. Please review mannually.'')]"

definition route_by_classification :: "pydict \<Rightarrow> pyerr + string" where
  "route_by_classification state =
     (case getitem state ''classification'' of
        Inl e \<Rightarrow> Inl e
      | Inr c \<Rightarrow> if c = VStr ''unknown'' then Inr ''handle_unknown'' else Inr ''extract'')"

section \<open>human\_in\_loop.py: the nodes and the router\<close>

definition extract_amount :: "pydict \<Rightarrow> pyerr + pydict" where
  "extract_amount state =
     (let amount = (500000 :: real);
          requires_approval = (amount > 100000)
      in Inr [(''extracted_amount'', VFloat amount),
              (''requires_approval'', VBool requires_approval)])"

definition check_approval_needed :: "pydict \<Rightarrow> pyerr + string" where
  "check_approval_needed state =
     (case getitem state ''requires_approval'' of
        Inl e \<Rightarrow> Inl e
      | Inr r \<Rightarrow> if truthy r then Inr ''wait_approval'' else Inr ''auto_approve'')"

definition wait_for_approval :: "pydict \<Rightarrow> pyerr + pydict" where
  "wait_for_approval state = Inr [(''status'', VStr ''waiting'')]"

definition auto_approve :: "pydict \<Rightarrow> pyerr + pydict" where
  "auto_approve state = Inr [(''approved'', VBool True), (''status'', VStr ''auto_approved'')]"

definition finalize :: "pydict \<Rightarrow> pyerr + pydict" where
  "finalize state =
     (case getitem state ''approved'' of
        Inl e \<Rightarrow> Inl e
      | Inr a \<Rightarrow>
          if truthy a then Inr [(''status'', VStr ''complete'')]
          else Inr [(''status'', VStr ''rejected'')])"

section \<open>ai\_workflow.py: the router and the node without a model call\<close>

definition ai_handle_unknown :: "pydict \<Rightarrow> pyerr + pydict" where
  "ai_handle_unknown state =
     Inr [(''error'', VStr ''Unrecognized document type. Please review manually.''),
          (''confidence'', VFloat 0)]"

definition route_by_type :: "pydict \<Rightarrow> pyerr + string" where
  "route_by_type state =
     (case getitem state ''classification'' of
        Inl e \<Rightarrow> Inl e
      | Inr c \<Rightarrow>
          if c = VStr ''loan_disclosure'' then Inr ''extract_loan''
          else if c = VStr ''appraisal'' then Inr ''extract_appraisal''
          else Inr ''unknown'')"

section \<open>The execution engine\<close>

text \<open>
  The four files build their graphs with the \<open>StateGraph\<close> builder and run them with
  \<open>compile\<close>, \<open>invoke\<close> and \<open>update_state\<close> of the graph library, which is not part
  of the source tree.  The definitions of this section follow the engine as the
  specification describes it (sections 3, 4.1, 4.3 and 4.4).
\<close>

text \<open>
  Modelled from the spec: the data model of the graph library (section 3).  A run is
  running, paused, completed or failed; the errors are those of section 7, with three more
  for the cases the specification leaves open (a router that raises, a name that is not a
  node of the graph, a resume or a patch on a thread without a checkpoint).  A graph has a
  schema, named node functions and one outgoing transition per node, static or
  conditional; \<open>START\<close> and \<open>END\<close> are the names the library gives its two
  pseudo-nodes.  A checkpoint holds the state, the node to run next and the status of one
  thread.  The result of a call holds the state and the status and, beyond what the
  specification returns, the pending node, the error and the list of the node functions
  that the call entered, in order.
\<close>

datatype run_status = Running | Paused | Completed | Failed

datatype engine_error =
    UnknownFieldError string
  | RoutingError string
  | NodeExecutionError pyerr
  | RouterFailure pyerr
  | UnknownNodeError string
  | NoCheckpoint

definition START :: string where
  "START = ''__start__''"

definition END :: string where
  "END = ''__end__''"

datatype transition =
    Static string
  | Conditional "pydict \<Rightarrow> pyerr + string" "(string \<times> string) list"

record graph =
  g_schema :: "string list"
  g_nodes :: "(string \<times> (pydict \<Rightarrow> pyerr + pydict)) list"
  g_edges :: "(string \<times> transition) list"

record checkpoint =
  cp_state :: pydict
  cp_next :: string
  cp_status :: run_status

type_synonym store = "string \<rightharpoonup> checkpoint"

record outcome =
  out_state :: pydict
  out_status :: run_status
  out_next :: string
  out_error :: "engine_error option"
  out_executed :: "string list"

text \<open>
  Modelled from the spec: the \<open>merge\<close> of the graph library (section 4.1).  Every key of
  the partial update overwrites the running state; a key outside the schema is an
  \<open>UnknownFieldError\<close>; the keys the partial update does not name are untouched.
\<close>

fun merge :: "string list \<Rightarrow> pydict \<Rightarrow> pydict \<Rightarrow> engine_error + pydict" where
  "merge sch cur [] = Inr cur"
| "merge sch cur ((k, v) # p) =
     (if k \<in> set sch then merge sch (AList.update k v cur) p
      else Inl (UnknownFieldError k))"

text \<open>
  Modelled from the spec: step 2(d) of the step loop of the graph library.  A static edge
  fixes the destination; a conditional edge evaluates its router on the merged state and
  looks the label up in the routing table, and a label outside the table is a
  \<open>RoutingError\<close>.  A router that raises, and a node without an outgoing transition,
  have no continuation: both end the run as failed.
\<close>

definition next_transition :: "graph \<Rightarrow> string \<Rightarrow> pydict \<Rightarrow> engine_error + string" where
  "next_transition g n s =
     (case map_of (g_edges g) n of
        None \<Rightarrow> Inl (UnknownNodeError n)
      | Some (Static dest) \<Rightarrow> Inr dest
      | Some (Conditional router table) \<Rightarrow>
          (case router s of
             Inl e \<Rightarrow> Inl (RouterFailure e)
           | Inr label \<Rightarrow>
               (case map_of table label of
                  None \<Rightarrow> Inl (RoutingError label)
                | Some dest \<Rightarrow> Inr dest)))"

text \<open>
  Modelled from the spec: step 2(a) of the step loop of the graph library, the first real
  node behind \<open>START\<close>.
\<close>

definition resolve_candidate :: "graph \<Rightarrow> string \<Rightarrow> engine_error + string" where
  "resolve_candidate g n =
     (if n = START then
        (case map_of (g_edges g) START of
           Some (Static first) \<Rightarrow> Inr first
         | _ \<Rightarrow> Inl (UnknownNodeError START))
      else Inr n)"

text \<open>
  Modelled from the spec: the outcomes of steps 2(a) to 2(f) of the step loop of the graph
  library.  One pass decides to pause before the candidate, to
  finish, to go on with another node, or to fail.  A failure keeps the state of the last
  successful merge and the node that was to run.
\<close>

datatype step_result =
    Pause string
  | Finish pydict
  | Next string pydict
  | Fail engine_error pydict string

text \<open>
  Modelled from the spec: steps 2(a) to 2(f) and 3 of the step loop of the graph library.
  The first component lists the node functions entered in this pass (none or the
  candidate).  Execution stays out of an interrupt-listed node only until a later call
  resumes the run or supplies input: the flag \<open>resumed\<close> marks the first pass of such
  a call, which enters the pending node without pausing again.
\<close>

definition step ::
  "graph \<Rightarrow> string list \<Rightarrow> bool \<Rightarrow> string \<Rightarrow> pydict \<Rightarrow> string list \<times> step_result" where
  "step g interrupt_before resumed n s =
     (case resolve_candidate g n of
        Inl e \<Rightarrow> ([], Fail e s n)
      | Inr cand \<Rightarrow>
          if cand \<in> set interrupt_before \<and> \<not> resumed then ([], Pause cand)
          else
            (case map_of (g_nodes g) cand of
               None \<Rightarrow> ([], Fail (UnknownNodeError cand) s cand)
             | Some fn \<Rightarrow>
                 (case fn s of
                    Inl e \<Rightarrow> ([cand], Fail (NodeExecutionError e) s cand)
                  | Inr partial \<Rightarrow>
                      (case merge (g_schema g) s partial of
                         Inl e \<Rightarrow> ([cand], Fail e s cand)
                       | Inr s' \<Rightarrow>
                           (case next_transition g cand s' of
                              Inl e \<Rightarrow> ([cand], Fail e s' cand)
                            | Inr dest \<Rightarrow>
                                if dest = END then ([cand], Finish s')
                                else ([cand], Next dest s'))))))"

text \<open>
  Modelled from the spec: what steps 2(b), 2(d), 2(e) and 3 of the step loop of the graph
  library persist and return when a pass ends the call.
\<close>

definition halt :: "string \<Rightarrow> store \<Rightarrow> pydict \<Rightarrow> string list \<Rightarrow> step_result \<Rightarrow> outcome \<times> store" where
  "halt tid st s tr r =
     (case r of
        Pause cand \<Rightarrow>
          (\<lparr>out_state = s, out_status = Paused, out_next = cand, out_error = None,
            out_executed = tr\<rparr>,
           st(tid \<mapsto> \<lparr>cp_state = s, cp_next = cand, cp_status = Paused\<rparr>))
      | Finish s' \<Rightarrow>
          (\<lparr>out_state = s', out_status = Completed, out_next = END, out_error = None,
            out_executed = tr\<rparr>,
           st(tid \<mapsto> \<lparr>cp_state = s', cp_next = END, cp_status = Completed\<rparr>))
      | Next m s' \<Rightarrow>
          (\<lparr>out_state = s', out_status = Running, out_next = m, out_error = None,
            out_executed = tr\<rparr>,
           st(tid \<mapsto> \<lparr>cp_state = s', cp_next = m, cp_status = Running\<rparr>))
      | Fail e s' m \<Rightarrow>
          (\<lparr>out_state = s', out_status = Failed, out_next = m, out_error = Some e,
            out_executed = tr\<rparr>,
           st(tid \<mapsto> \<lparr>cp_state = s', cp_next = m, cp_status = Failed\<rparr>)))"

text \<open>
  Modelled from the spec: the step loop of the graph library (section 4.3, step 2).  The
  checkpoint of the thread is saved after every pass.  A graph with a cycle may keep the
  loop running for ever, and the result is then \<open>None\<close>.
\<close>

partial_function (option) step_loop ::
  "graph \<Rightarrow> string list \<Rightarrow> string \<Rightarrow> store \<Rightarrow> bool \<Rightarrow> string \<Rightarrow> pydict \<Rightarrow> string list
     \<Rightarrow> (outcome \<times> store) option" where
  "step_loop g interrupt_before tid st resumed n s tr =
     (case step g interrupt_before resumed n s of
        (entered, Next m s') \<Rightarrow>
          step_loop g interrupt_before tid
            (st(tid \<mapsto> \<lparr>cp_state = s', cp_next = m, cp_status = Running\<rparr>)) False m s'
            (tr @ entered)
      | (entered, r) \<Rightarrow> Some (halt tid st s (tr @ entered) r))"

declare step_loop.simps [code]

text \<open>
  Modelled from the spec: \<open>invoke\<close> of the graph library (section 4.3, step 1).  The input
  \<open>None\<close> is the sentinel that resumes a run.  With a checkpoint and the sentinel the run
  goes on from the stored node (entering it when the run was paused before it), and a run
  that has ended is returned as stored; with a
  checkpoint and an input the input is merged into the stored state as a patch; without a
  checkpoint the input is the state of a new run that starts at \<open>START\<close>.  The sentinel
  without a checkpoint has nothing to resume.
\<close>

definition invoke_thread ::
  "graph \<Rightarrow> string list \<Rightarrow> store \<Rightarrow> string \<Rightarrow> pydict option \<Rightarrow> (outcome \<times> store) option" where
  "invoke_thread g interrupt_before st tid input =
     (case st tid of
        Some cp \<Rightarrow>
          (case input of
             None \<Rightarrow>
               if cp_status cp = Completed \<or> cp_status cp = Failed then
                 Some (\<lparr>out_state = cp_state cp, out_status = cp_status cp,
                        out_next = cp_next cp, out_error = None, out_executed = []\<rparr>, st)
               else
                 step_loop g interrupt_before tid st (cp_status cp = Paused) (cp_next cp)
                   (cp_state cp) []
           | Some patch \<Rightarrow>
               (case merge (g_schema g) (cp_state cp) patch of
                  Inl e \<Rightarrow>
                    Some (\<lparr>out_state = cp_state cp, out_status = Failed,
                           out_next = cp_next cp, out_error = Some e, out_executed = []\<rparr>,
                          st(tid \<mapsto> cp\<lparr>cp_status := Failed\<rparr>))
                | Inr s \<Rightarrow>
                    step_loop g interrupt_before tid (st(tid \<mapsto> cp\<lparr>cp_state := s\<rparr>))
                      (cp_status cp = Paused) (cp_next cp) s []))
      | None \<Rightarrow>
          (case input of
             None \<Rightarrow>
               Some (\<lparr>out_state = [], out_status = Failed, out_next = START,
                      out_error = Some NoCheckpoint, out_executed = []\<rparr>, st)
           | Some s \<Rightarrow> step_loop g interrupt_before tid st False START s []))"

text \<open>
  Modelled from the spec: \<open>invoke\<close> of the graph library without a thread identifier
  (section 4.3), a one-shot run on a checkpoint store of its own, which is dropped
  afterwards.
\<close>

definition invoke ::
  "graph \<Rightarrow> string list \<Rightarrow> store \<Rightarrow> string option \<Rightarrow> pydict option \<Rightarrow> (outcome \<times> store) option" where
  "invoke g interrupt_before st thread input =
     (case thread of
        Some tid \<Rightarrow> invoke_thread g interrupt_before st tid input
      | None \<Rightarrow>
          (case invoke_thread g interrupt_before Map.empty [] input of
             None \<Rightarrow> None
           | Some (out, _) \<Rightarrow> Some (out, st)))"

text \<open>
  Modelled from the spec: \<open>update_state\<close> of the graph library, the \<open>patch\<close> of section
  4.4.  The partial update is merged into the stored state; the pending node and the
  status stay as they are.
\<close>

definition update_state :: "graph \<Rightarrow> store \<Rightarrow> string \<Rightarrow> pydict \<Rightarrow> engine_error + store" where
  "update_state g st tid patch =
     (case st tid of
        None \<Rightarrow> Inl NoCheckpoint
      | Some cp \<Rightarrow>
          (case merge (g_schema g) (cp_state cp) patch of
             Inl e \<Rightarrow> Inl e
           | Inr s \<Rightarrow> Inr (st(tid \<mapsto> cp\<lparr>cp_state := s\<rparr>))))"


text \<open>
  The run-time contract of conditional edges: whatever label a router returns is a key of
  its routing table.
\<close>

definition routers_total :: "graph \<Rightarrow> bool" where
  "routers_total g \<longleftrightarrow>
     (\<forall>n router table s label.
        map_of (g_edges g) n = Some (Conditional router table) \<longrightarrow>
        router s = Inr label \<longrightarrow> map_of table label \<noteq> None)"

section \<open>The four graphs\<close>

definition basic_graph :: graph where
  "basic_graph =
     \<lparr>g_schema = [''document'', ''classification'', ''extracted_data'', ''is_valid''],
      g_nodes = [(''classify'', basic_classify_document),
                 (''extract'', basic_extract_data),
                 (''validate'', validate_data)],
      g_edges = [(START, Static ''classify''),
                 (''classify'', Static ''extract''),
                 (''extract'', Static ''validate''),
                 (''validate'', Static END)]\<rparr>"

definition conditional_graph :: graph where
  "conditional_graph =
     \<lparr>g_schema = [''document'', ''classification'', ''extracted_data'', ''error_message''],
      g_nodes = [(''classify'', conditional_classify_document),
                 (''extract'', conditional_extract_data),
                 (''handle_unknown'', conditional_handle_unknown)],
      g_edges = [(START, Static ''classify''),
                 (''classify'',
                    Conditional route_by_classification
                      [(''extract'', ''extract''), (''handle_unknown'', ''handle_unknown'')]),
                 (''extract'', Static END),
                 (''handle_unknown'', Static END)]\<rparr>"

definition human_in_loop_graph :: graph where
  "human_in_loop_graph =
     \<lparr>g_schema = [''document'', ''extracted_amount'', ''requires_approval'', ''approved'',
                  ''status''],
      g_nodes = [(''extract'', extract_amount),
                 (''wait_approval'', wait_for_approval),
                 (''auto_approve'', auto_approve),
                 (''finalize'', finalize)],
      g_edges = [(START, Static ''extract''),
                 (''extract'',
                    Conditional check_approval_needed
                      [(''wait_approval'', ''wait_approval''),
                       (''auto_approve'', ''auto_approve'')]),
                 (''wait_approval'', Static ''finalize''),
                 (''auto_approve'', Static ''finalize''),
                 (''finalize'', Static END)]\<rparr>"

text \<open>\<open>interrupt_before\<close> of \<open>workflow.compile\<close> in human\_in\_loop.py.\<close>

definition human_in_loop_interrupt :: "string list" where
  "human_in_loop_interrupt = [''finalize'']"

text \<open>
  The three nodes of ai\_workflow.py that call the language model are parameters: the
  engine runs whatever they return.
\<close>

definition ai_workflow_graph ::
  "(pydict \<Rightarrow> pyerr + pydict) \<Rightarrow> (pydict \<Rightarrow> pyerr + pydict) \<Rightarrow> (pydict \<Rightarrow> pyerr + pydict)
     \<Rightarrow> graph" where
  "ai_workflow_graph classify_with_llm extract_loan_data extract_appraisal_data =
     \<lparr>g_schema = [''document'', ''classification'', ''extracted_data'', ''confidence'',
                  ''error''],
      g_nodes = [(''classify'', classify_with_llm),
                 (''extract_loan'', extract_loan_data),
                 (''extract_appraisal'', extract_appraisal_data),
                 (''unknown'', ai_handle_unknown)],
      g_edges = [(START, Static ''classify''),
                 (''classify'',
                    Conditional route_by_type
                      [(''extract_loan'', ''extract_loan''),
                       (''extract_appraisal'', ''extract_appraisal''),
                       (''unknown'', ''unknown'')]),
                 (''extract_loan'', Static END),
                 (''extract_appraisal'', Static END),
                 (''unknown'', Static END)]\<rparr>"

text \<open>The state in which the first call of human\_in\_loop.py leaves a run that began with \<open>s\<close>.\<close>

definition human_paused :: "pydict \<Rightarrow> pydict" where
  "human_paused s = AList.update ''status'' (VStr ''waiting'')
        (AList.update ''requires_approval'' (VBool True)
           (AList.update ''extracted_amount'' (VFloat 500000) s))"

section \<open>The calls made by the four files\<close>

text \<open>\<open>MemorySaver()\<close>: a checkpoint store without any checkpoint.\<close>

definition fresh_store :: store where
  "fresh_store = Map.empty"

definition basic_initial_state :: pydict where
  "basic_initial_state =
     [(''document'', VStr ''This is a LOAN disclosure document for $500,000''),
      (''classification'', VStr []),
      (''extracted_data'', VDict []),
      (''is_valid'', VBool False)]"

definition conditional_test1_input :: pydict where
  "conditional_test1_input =
     [(''document'', VStr ''LOAN disclosure for $500,000''),
      (''classification'', VStr []),
      (''extracted_data'', VDict []),
      (''error_message'', VStr [])]"

definition conditional_test2_input :: pydict where
  "conditional_test2_input =
     [(''document'', VStr ''Random document about something else''),
      (''classification'', VStr []),
      (''extrated_data'', VDict []),
      (''error_message'', VStr [])]"

definition human_thread_id :: string where
  "human_thread_id = ''loan-123''"

definition human_initial_state :: pydict where
  "human_initial_state =
     [(''document'', VStr ''Loan for $500,000''),
      (''extracted_amount'', VFloat 0),
      (''requires_approval'', VBool False),
      (''approved'', VBool False),
      (''status'', VStr [])]"

section \<open>Unfolding the step loop\<close>

lemma step_loop_next:
  "step g ib resumed n s = (en, Next m s') \<Longrightarrow>
   step_loop g ib tid st resumed n s tr =
     step_loop g ib tid (st(tid \<mapsto> \<lparr>cp_state = s', cp_next = m, cp_status = Running\<rparr>))
       False m s' (tr @ en)"
  by (subst step_loop.simps) simp

lemma step_loop_pause:
  "step g ib resumed n s = (en, Pause c) \<Longrightarrow>
   step_loop g ib tid st resumed n s tr = Some (halt tid st s (tr @ en) (Pause c))"
  by (subst step_loop.simps) simp

lemma step_loop_finish:
  "step g ib resumed n s = (en, Finish s') \<Longrightarrow>
   step_loop g ib tid st resumed n s tr = Some (halt tid st s (tr @ en) (Finish s'))"
  by (subst step_loop.simps) simp

lemma step_loop_fail:
  "step g ib resumed n s = (en, Fail e s' m) \<Longrightarrow>
   step_loop g ib tid st resumed n s tr = Some (halt tid st s (tr @ en) (Fail e s' m))"
  by (subst step_loop.simps) simp

lemmas engine_defs =
  step_def resolve_candidate_def next_transition_def getitem_def START_def END_def

section \<open>Merging and the invariants of the step loop\<close>


lemma merge_frame:
  "merge sch s p = Inr s' \<Longrightarrow> k \<notin> fst ` set p \<Longrightarrow> map_of s' k = map_of s k"
  by (induction sch s p rule: merge.induct) (auto simp: update_conv' split: if_splits)


lemma merge_declared:
  "merge sch s p = Inr s' \<Longrightarrow> fst ` set p \<subseteq> set sch"
  by (induction sch s p rule: merge.induct) (auto split: if_splits)

lemma merge_undeclared:
  "k \<in> fst ` set p \<Longrightarrow> k \<notin> set sch \<Longrightarrow> \<exists>k'. k' \<in> fst ` set p \<and> k' \<notin> set sch \<and> merge sch s p = Inl (UnknownFieldError k')"
  by (induction sch s p rule: merge.induct) auto

lemma merge_ok:
  "fst ` set p \<subseteq> set sch \<Longrightarrow> \<exists>s'. merge sch s p = Inr s'"
  by (induction sch s p rule: merge.induct) auto

lemma merge_overwrite:
  "merge sch s p = Inr s' \<Longrightarrow> distinct (map fst p) \<Longrightarrow> (k, v) \<in> set p \<Longrightarrow> map_of s' k = Some v"
  apply (induction sch s p rule: merge.induct) 
   apply (auto simp: update_conv' split: if_splits)
  using merge_frame apply (fastforce simp: update_conv')
  done

lemma merge_not_routing: "merge sch s p = Inl e \<Longrightarrow> e \<noteq> RoutingError l"
  by (induction sch s p rule: merge.induct) (auto split: if_splits)





lemma step_loop_induct [consumes 1, case_names stop continue]:
  assumes run: "step_loop g ib tid st0 resumed0 n0 s0 tr0 = Some y0"
    and stop: "\<And>st resumed n s tr en r.
        step g ib resumed n s = (en, r) \<Longrightarrow> \<forall>m s'. r \<noteq> Next m s' \<Longrightarrow>
        P st resumed n s tr (halt tid st s (tr @ en) r)"
    and continue: "\<And>st resumed n s tr en m s' y.
        step g ib resumed n s = (en, Next m s') \<Longrightarrow>
        P (st(tid \<mapsto> \<lparr>cp_state = s', cp_next = m, cp_status = Running\<rparr>)) False m s'
          (tr @ en) y \<Longrightarrow>
        P st resumed n s tr y"
  shows "P st0 resumed0 n0 s0 tr0 y0"
proof -
  have "g = g \<and> ib = ib \<and> tid = tid \<longrightarrow> P st0 resumed0 n0 s0 tr0 y0"
  proof (rule step_loop.raw_induct
      [where P = "\<lambda>g' ib' tid' st resumed n s tr y.
                    g' = g \<and> ib' = ib \<and> tid' = tid \<longrightarrow> P st resumed n s tr y",
        OF _ run], goal_cases)
    case (1 loop g' ib' tid' st resumed n s tr y)
    show ?case
    proof
      assume "g' = g \<and> ib' = ib \<and> tid' = tid"
      then have eq: "g' = g" "ib' = ib" "tid' = tid"
        by simp_all
      note body = 1(2) [unfolded eq]
      obtain en r where sr: "step g ib resumed n s = (en, r)"
        by (cases "step g ib resumed n s")
      show "P st resumed n s tr y"
      proof (cases "\<exists>m s'. r = Next m s'")
        case True
        then obtain m s' where r: "r = Next m s'"
          by blast
        with body sr have "loop g ib tid
            (st(tid \<mapsto> \<lparr>cp_state = s', cp_next = m, cp_status = Running\<rparr>)) False m s'
            (tr @ en) = Some y"
          by simp
        from 1(1) [OF this] eq have "P (st(tid \<mapsto> \<lparr>cp_state = s', cp_next = m,
            cp_status = Running\<rparr>)) False m s' (tr @ en) y"
          by simp
        with sr r show ?thesis
          by (simp add: continue)
      next
        case False
        then have nn: "\<forall>m s'. r \<noteq> Next m s'"
          by blast
        from body have "y = halt tid st s (tr @ en) r"
          using sr nn by (cases r) simp_all
        with stop [OF sr nn] show ?thesis
          by simp
      qed
    qed
  qed
  then show ?thesis
    by simp
qed


lemma next_transition_no_routing_error:
  assumes "routers_total g" and "next_transition g n s = Inl e"
  shows "e \<noteq> RoutingError l"
proof (cases "map_of (g_edges g) n")
  case None
  with assms(2) show ?thesis
    by (auto simp: next_transition_def)
next
  case (Some t)
  show ?thesis
  proof (cases t)
    case (Static dest)
    with Some assms(2) show ?thesis
      by (auto simp: next_transition_def)
  next
    case (Conditional router table)
    show ?thesis
    proof (cases "router s")
      case (Inl x)
      with Some Conditional assms(2) show ?thesis
        by (auto simp: next_transition_def)
    next
      case (Inr label)
      with assms(1) Some Conditional have "map_of table label \<noteq> None"
        unfolding routers_total_def by blast
      with Some Conditional Inr assms(2) show ?thesis
        by (auto simp: next_transition_def)
    qed
  qed
qed

lemma step_no_routing_error:
  assumes "routers_total g" and "step g ib resumed n s = (en, Fail e s' m)"
  shows "e \<noteq> RoutingError l"
  using assms(2) next_transition_no_routing_error [OF assms(1)]
  by (auto simp: step_def resolve_candidate_def
      split: sum.splits if_splits option.splits transition.splits dest: merge_not_routing)

lemma halt_error:
  "out_error (fst (halt tid st s tr r)) = (case r of Fail e s' m \<Rightarrow> Some e | _ \<Rightarrow> None)"
  by (cases r) (simp_all add: halt_def)

lemma step_loop_no_routing_error:
  assumes "step_loop g ib tid st resumed n s tr = Some y" and "routers_total g"
  shows "out_error (fst y) \<noteq> Some (RoutingError l)"
  using assms
proof (induction rule: step_loop_induct)
  case (stop st resumed n s tr en r)
  then show ?case
    by (cases r) (auto simp: halt_error dest: step_no_routing_error)
next
  case (continue st resumed n s tr en m s' y)
  then show ?case
    by simp
qed


section \<open>Strings\<close>

lemma lower_LOAN: "lower ''LOAN'' = ''loan''"
  by code_simp

lemma str_in_lower: "str_in x d \<Longrightarrow> str_in (lower x) (lower d)"
  unfolding str_in_def lower_def by (rule map_mono_sublist)

lemma str_in_nonempty: "str_in (x # xs) d \<Longrightarrow> d \<noteq> []"
  by (auto simp: str_in_def)

section \<open>Classification\<close>

text \<open>
  C10.  When the lower-cased document contains both \<open>loan\<close> and \<open>appraisal\<close>, both
  \<open>classify_document\<close> functions (basic\_graph.py and conditional\_graph.py) return the
  classification \<open>loan_disclosure\<close>; they return \<open>appraisal\<close> exactly when the
  lower-cased document contains \<open>appraisal\<close> and does not contain \<open>loan\<close>.
\<close>

theorem classify_document_precedence:
  assumes "map_of state ''document'' = Some (VStr d)"
  shows
    "(str_in ''loan'' (lower d) \<and> str_in ''appraisal'' (lower d) \<longrightarrow>
        basic_classify_document state = Inr [(''classification'', VStr ''loan_disclosure'')] \<and>
        conditional_classify_document state
          = Inr [(''classification'', VStr ''loan_disclosure'')])
     \<and> (basic_classify_document state = Inr [(''classification'', VStr ''appraisal'')]
          \<longleftrightarrow> str_in ''appraisal'' (lower d) \<and> \<not> str_in ''loan'' (lower d))
     \<and> (conditional_classify_document state = Inr [(''classification'', VStr ''appraisal'')]
          \<longleftrightarrow> str_in ''appraisal'' (lower d) \<and> \<not> str_in ''loan'' (lower d))"
  using assms
  by (simp add: basic_classify_document_def conditional_classify_document_def getitem_def
      val_lower_def classify_label_def)

theorem classify_document_precedence_witness:
  "map_of [(''document'', VStr ''Loan APPRAISAL'')] ''document'' = Some (VStr ''Loan APPRAISAL'')
   \<and> str_in ''loan'' (lower ''Loan APPRAISAL'')
   \<and> str_in ''appraisal'' (lower ''Loan APPRAISAL'')
   \<and> basic_classify_document [(''document'', VStr ''Loan APPRAISAL'')]
        = Inr [(''classification'', VStr ''loan_disclosure'')]
   \<and> conditional_classify_document [(''document'', VStr ''Loan APPRAISAL'')]
        = Inr [(''classification'', VStr ''loan_disclosure'')]
   \<and> basic_classify_document [(''document'', VStr ''Loan APPRAISAL'')]
        \<noteq> Inr [(''classification'', VStr ''appraisal'')]"
proof -
  have h: "map_of [(''document'', VStr ''Loan APPRAISAL'')] ''document''
             = Some (VStr ''Loan APPRAISAL'')"
    by simp
  have l: "str_in ''loan'' (lower ''Loan APPRAISAL'')"
    by code_simp
  have a: "str_in ''appraisal'' (lower ''Loan APPRAISAL'')"
    by code_simp
  from classify_document_precedence [OF h] h l a show ?thesis
    by blast
qed

section \<open>The linear graph\<close>

lemma basic_step1:
  assumes "map_of s ''document'' = Some (VStr d)" and "str_in ''LOAN'' d"
  shows "step basic_graph [] False START s =
           ([''classify''],
            Next ''extract'' (AList.update ''classification'' (VStr ''loan_disclosure'') s))"
proof -
  have "str_in ''loan'' (lower d)"
    using str_in_lower [OF assms(2)] by (simp add: lower_LOAN)
  then show ?thesis
    using assms(1)
    by (simp add: engine_defs basic_graph_def basic_classify_document_def val_lower_def
        classify_label_def)
qed

lemma basic_step2:
  assumes "map_of s ''document'' = Some (VStr d)" and "d \<noteq> []"
    and "map_of s ''classification'' = Some c"
  shows "step basic_graph [] False ''extract'' s =
           ([''extract''],
            Next ''validate''
              (AList.update ''extracted_data''
                 (VDict [(''type'', c), (''has_content'', VBool True)]) s))"
  using assms
  by (simp add: engine_defs basic_graph_def basic_extract_data_def val_len_def)

lemma basic_step3:
  assumes "map_of s ''classification'' = Some c" and "c \<noteq> VStr ''unknown''"
    and "map_of s ''extracted_data'' = Some (VDict x)" and "map_of x ''has_content'' = Some r"
  shows "step basic_graph [] False ''validate'' s =
           ([''validate''], Finish (AList.update ''is_valid'' r s))"
  using assms
  by (simp add: engine_defs basic_graph_def validate_data_def dict_get_def)

text \<open>
  C3.  The linear graph of basic\_graph.py, invoked without a thread identifier on an
  initial state whose document is a string that contains \<open>LOAN\<close> (hence is not empty),
  returns: the run is completed, the nodes classify, extract and validate ran in this
  order, and the final state has classification \<open>loan_disclosure\<close> and is\_valid true.
  This holds whatever the other fields of the initial state are, so also for
  classification \<open>""\<close>, extracted\_data \<open>{}\<close> and is\_valid false.
\<close>

theorem basic_graph_loan_run:
  assumes "map_of s ''document'' = Some (VStr d)" and "str_in ''LOAN'' d"
  shows "\<exists>out. invoke basic_graph [] st None (Some s) = Some (out, st)
           \<and> out_status out = Completed \<and> out_error out = None
           \<and> out_executed out = [''classify'', ''extract'', ''validate'']
           \<and> map_of (out_state out) ''classification'' = Some (VStr ''loan_disclosure'')
           \<and> map_of (out_state out) ''is_valid'' = Some (VBool True)"
proof -
  let ?s1 = "AList.update ''classification'' (VStr ''loan_disclosure'') s"
  let ?s2 = "AList.update ''extracted_data''
               (VDict [(''type'', VStr ''loan_disclosure''), (''has_content'', VBool True)]) ?s1"
  let ?s3 = "AList.update ''is_valid'' (VBool True) ?s2"
  have ne: "d \<noteq> []"
    using assms(2) by (rule str_in_nonempty)
  have 1: "step basic_graph [] False START s = ([''classify''], Next ''extract'' ?s1)"
    using assms by (rule basic_step1)
  have 2: "step basic_graph [] False ''extract'' ?s1 = ([''extract''], Next ''validate'' ?s2)"
    by (rule basic_step2 [where d = d]) (simp_all add: update_conv' assms ne)
  have 3: "step basic_graph [] False ''validate'' ?s2 = ([''validate''], Finish ?s3)"
    by (rule basic_step3 [where c = "VStr ''loan_disclosure''"
          and x = "[(''type'', VStr ''loan_disclosure''), (''has_content'', VBool True)]"])
       (simp_all add: update_conv')
  have "step_loop basic_graph [] [] Map.empty False START s [] =
          Some (halt []
                  (Map.empty
                     ([] \<mapsto> \<lparr>cp_state = ?s1, cp_next = ''extract'', cp_status = Running\<rparr>,
                      [] \<mapsto> \<lparr>cp_state = ?s2, cp_next = ''validate'', cp_status = Running\<rparr>))
                  ?s2 [''classify'', ''extract'', ''validate''] (Finish ?s3))"
    by (simp add: step_loop_next [OF 1] step_loop_next [OF 2] step_loop_finish [OF 3])
  then show ?thesis
    by (simp add: invoke_def invoke_thread_def halt_def update_conv')
qed

theorem basic_graph_loan_run_witness:
  "map_of basic_initial_state ''document''
     = Some (VStr ''This is a LOAN disclosure document for $500,000'')
   \<and> str_in ''LOAN'' ''This is a LOAN disclosure document for $500,000''
   \<and> (\<exists>out. invoke basic_graph [] fresh_store None (Some basic_initial_state)
                = Some (out, fresh_store)
          \<and> out_status out = Completed \<and> out_error out = None
          \<and> out_executed out = [''classify'', ''extract'', ''validate'']
          \<and> map_of (out_state out) ''classification'' = Some (VStr ''loan_disclosure'')
          \<and> map_of (out_state out) ''is_valid'' = Some (VBool True))"
proof -
  have h: "map_of basic_initial_state ''document''
             = Some (VStr ''This is a LOAN disclosure document for $500,000'')"
    by (simp add: basic_initial_state_def)
  have l: "str_in ''LOAN'' ''This is a LOAN disclosure document for $500,000''"
    by code_simp
  from basic_graph_loan_run [OF h l, of fresh_store] h l show ?thesis
    by blast
qed

section \<open>The graph with a human in the loop\<close>


lemma human_step1:
  "step human_in_loop_graph human_in_loop_interrupt False START s =
     ([''extract''],
      Next ''wait_approval''
        (AList.update ''requires_approval'' (VBool True)
           (AList.update ''extracted_amount'' (VFloat 500000) s)))"
  by (simp add: engine_defs human_in_loop_graph_def human_in_loop_interrupt_def
      extract_amount_def check_approval_needed_def truthy_def update_conv')

lemma human_step2:
  "step human_in_loop_graph human_in_loop_interrupt False ''wait_approval'' s =
     ([''wait_approval''], Next ''finalize'' (AList.update ''status'' (VStr ''waiting'') s))"
  by (simp add: engine_defs human_in_loop_graph_def human_in_loop_interrupt_def
      wait_for_approval_def)

lemma human_step3:
  "step human_in_loop_graph human_in_loop_interrupt False ''finalize'' s =
     ([], Pause ''finalize'')"
  by (simp add: engine_defs human_in_loop_graph_def human_in_loop_interrupt_def)

lemma human_finalize_step:
  "step human_in_loop_graph human_in_loop_interrupt True ''finalize'' s =
     (case map_of s ''approved'' of
        None \<Rightarrow> ([''finalize''], Fail (NodeExecutionError (KeyError ''approved'')) s ''finalize'')
      | Some a \<Rightarrow>
          ([''finalize''],
           Finish (AList.update ''status''
                     (VStr (if truthy a then ''complete'' else ''rejected'')) s)))"
  by (simp add: engine_defs human_in_loop_graph_def human_in_loop_interrupt_def
      finalize_def split: option.splits)

lemma human_first_run:
  "step_loop human_in_loop_graph human_in_loop_interrupt tid st False START s tr =
     Some (\<lparr>out_state = human_paused s, out_status = Paused, out_next = ''finalize'',
            out_error = None, out_executed = tr @ [''extract'', ''wait_approval'']\<rparr>,
           st(tid \<mapsto> \<lparr>cp_state = human_paused s, cp_next = ''finalize'', cp_status = Paused\<rparr>))"
  by (simp add: step_loop_next [OF human_step1] step_loop_next [OF human_step2]
      step_loop_pause [OF human_step3] halt_def human_paused_def)

lemma human_resume_run:
  "\<exists>out st'. step_loop human_in_loop_graph human_in_loop_interrupt tid st True ''finalize'' s tr
       = Some (out, st')
     \<and> out_executed out = tr @ [''finalize'']
     \<and> (\<forall>a. map_of s ''approved'' = Some a \<longrightarrow>
           out_status out = Completed \<and> out_error out = None \<and>
           out_state out = AList.update ''status''
                     (VStr (if truthy a then ''complete'' else ''rejected'')) s)"
proof (cases "map_of s ''approved''")
  case None
  then have "step human_in_loop_graph human_in_loop_interrupt True ''finalize'' s =
      ([''finalize''], Fail (NodeExecutionError (KeyError ''approved'')) s ''finalize'')"
    by (simp add: human_finalize_step)
  from step_loop_fail [OF this] None show ?thesis
    by (simp add: halt_def)
next
  case (Some a)
  then have "step human_in_loop_graph human_in_loop_interrupt True ''finalize'' s =
      ([''finalize''], Finish (AList.update ''status''
                     (VStr (if truthy a then ''complete'' else ''rejected'')) s))"
    by (simp add: human_finalize_step)
  from step_loop_finish [OF this] Some show ?thesis
    by (simp add: halt_def)
qed

text \<open>
  C1.  The graph of human\_in\_loop.py is compiled with \<open>interrupt_before=["finalize"]\<close>.
  The first call on a thread identifier without a checkpoint, whatever the initial state,
  runs extract and wait\_approval and pauses: the status is paused, the pending node is
  finalize, the node function of finalize has not run, and the checkpoint of the thread
  holds the paused run.  The second call on the same thread identifier runs finalize.
\<close>

theorem interrupt_before_finalize:
  assumes "st tid = None"
  shows "\<exists>out st'.
           invoke human_in_loop_graph human_in_loop_interrupt st (Some tid) (Some s)
             = Some (out, st')
         \<and> out_status out = Paused \<and> out_next out = ''finalize'' \<and> out_error out = None
         \<and> out_executed out = [''extract'', ''wait_approval'']
         \<and> ''finalize'' \<notin> set (out_executed out)
         \<and> st' tid = Some \<lparr>cp_state = out_state out, cp_next = ''finalize'',
                             cp_status = Paused\<rparr>
         \<and> (\<exists>out2 st2.
               invoke human_in_loop_graph human_in_loop_interrupt st' (Some tid) None
                 = Some (out2, st2)
             \<and> out_executed out2 = [''finalize''])"
proof -
  let ?st' = "st(tid \<mapsto> \<lparr>cp_state = human_paused s, cp_next = ''finalize'', cp_status = Paused\<rparr>)"
  obtain out2 st2 where
    "step_loop human_in_loop_graph human_in_loop_interrupt tid ?st' True ''finalize''
       (human_paused s) [] = Some (out2, st2)"
    and "out_executed out2 = [''finalize'']"
    using human_resume_run [of tid ?st' "human_paused s" "[]"] by auto
  then show ?thesis
    using assms by (simp add: invoke_def invoke_thread_def human_first_run)
qed

theorem interrupt_before_finalize_witness:
  "fresh_store human_thread_id = None
   \<and> (\<exists>out st'.
          invoke human_in_loop_graph human_in_loop_interrupt fresh_store
            (Some human_thread_id) (Some human_initial_state) = Some (out, st')
        \<and> out_status out = Paused \<and> out_next out = ''finalize''
        \<and> ''finalize'' \<notin> set (out_executed out)
        \<and> (\<exists>out2 st2.
              invoke human_in_loop_graph human_in_loop_interrupt st'
                (Some human_thread_id) None = Some (out2, st2)
            \<and> out_executed out2 = [''finalize'']))"
proof -
  have h: "fresh_store human_thread_id = None"
    by (simp add: fresh_store_def)
  from interrupt_before_finalize [of fresh_store human_thread_id human_initial_state, OF h] h show ?thesis
    by blast
qed

lemma human_patch_resume:
  assumes "st tid = None"
  shows "\<exists>out1 st1.
           invoke human_in_loop_graph human_in_loop_interrupt st (Some tid) (Some s)
             = Some (out1, st1)
         \<and> out_status out1 = Paused
         \<and> (\<forall>a. \<exists>st2 out st3.
               update_state human_in_loop_graph st1 tid [(''approved'', a)] = Inr st2
             \<and> invoke human_in_loop_graph human_in_loop_interrupt st2 (Some tid) None
                 = Some (out, st3)
             \<and> out_status out = Completed \<and> out_error out = None
             \<and> out_executed out = [''finalize'']
             \<and> map_of (out_state out) ''approved'' = Some a
             \<and> map_of (out_state out) ''status''
                 = Some (VStr (if truthy a then ''complete'' else ''rejected'')))"
proof -
  let ?st1 = "st(tid \<mapsto> \<lparr>cp_state = human_paused s, cp_next = ''finalize'',
                           cp_status = Paused\<rparr>)"
  have 1: "invoke human_in_loop_graph human_in_loop_interrupt st (Some tid) (Some s)
             = Some (\<lparr>out_state = human_paused s, out_status = Paused,
                      out_next = ''finalize'', out_error = None,
                      out_executed = [''extract'', ''wait_approval'']\<rparr>, ?st1)"
    using assms by (simp add: invoke_def invoke_thread_def human_first_run)
  have 2: "\<exists>st2 out st3.
               update_state human_in_loop_graph ?st1 tid [(''approved'', a)] = Inr st2
             \<and> invoke human_in_loop_graph human_in_loop_interrupt st2 (Some tid) None
                 = Some (out, st3)
             \<and> out_status out = Completed \<and> out_error out = None
             \<and> out_executed out = [''finalize'']
             \<and> map_of (out_state out) ''approved'' = Some a
             \<and> map_of (out_state out) ''status''
                 = Some (VStr (if truthy a then ''complete'' else ''rejected''))" for a
  proof -
    let ?p = "AList.update ''approved'' a (human_paused s)"
    let ?st2 = "st(tid \<mapsto> \<lparr>cp_state = ?p, cp_next = ''finalize'', cp_status = Paused\<rparr>)"
    have u: "update_state human_in_loop_graph ?st1 tid [(''approved'', a)] = Inr ?st2"
      by (simp add: update_state_def human_in_loop_graph_def)
    have m: "map_of ?p ''approved'' = Some a"
      by (simp add: update_conv')
    obtain out st3 where r:
      "step_loop human_in_loop_graph human_in_loop_interrupt tid ?st2 True ''finalize'' ?p []
         = Some (out, st3)"
      "out_executed out = [''finalize'']"
      "out_status out = Completed" "out_error out = None"
      "out_state out = AList.update ''status''
                         (VStr (if truthy a then ''complete'' else ''rejected'')) ?p"
      using human_resume_run [of tid ?st2 ?p "[]"] m by auto
    have i: "invoke human_in_loop_graph human_in_loop_interrupt ?st2 (Some tid) None
               = Some (out, st3)"
      using r(1) by (simp add: invoke_def invoke_thread_def)
    have "map_of (out_state out) ''approved'' = Some a"
      and "map_of (out_state out) ''status''
             = Some (VStr (if truthy a then ''complete'' else ''rejected''))"
      using r(5) by (simp_all add: update_conv')
    with u i r(2-4) show ?thesis
      by blast
  qed
  from 1 2 show ?thesis
    by simp
qed

text \<open>
  C2.  On a run of the graph of human\_in\_loop.py that the first call has paused before
  finalize, \<open>update_state\<close> with \<open>{"approved": True}\<close> followed by \<open>invoke(None)\<close> on the
  same thread identifier completes the run: only finalize runs, and the final state has
  approved true and the status field \<open>complete\<close>.  The status comes from the patched
  field, which finalize reads: with \<open>{"approved": False}\<close> the same two calls end with
  the status field \<open>rejected\<close>, and for any patched value the status field is
  \<open>complete\<close> exactly when the value is true in a condition.
\<close>

theorem patch_then_resume:
  assumes "st tid = None"
  shows "(\<exists>out1 st1 st2 out st3.
           invoke human_in_loop_graph human_in_loop_interrupt st (Some tid) (Some s)
             = Some (out1, st1)
         \<and> out_status out1 = Paused
         \<and> update_state human_in_loop_graph st1 tid [(''approved'', VBool True)] = Inr st2
         \<and> invoke human_in_loop_graph human_in_loop_interrupt st2 (Some tid) None
             = Some (out, st3)
         \<and> out_status out = Completed \<and> out_error out = None
         \<and> out_executed out = [''finalize'']
         \<and> map_of (out_state out) ''approved'' = Some (VBool True)
         \<and> map_of (out_state out) ''status'' = Some (VStr ''complete''))
     \<and> (\<exists>out1 st1 st2 out st3.
           invoke human_in_loop_graph human_in_loop_interrupt st (Some tid) (Some s)
             = Some (out1, st1)
         \<and> out_status out1 = Paused
         \<and> update_state human_in_loop_graph st1 tid [(''approved'', VBool False)] = Inr st2
         \<and> invoke human_in_loop_graph human_in_loop_interrupt st2 (Some tid) None
             = Some (out, st3)
         \<and> out_status out = Completed \<and> out_error out = None
         \<and> out_executed out = [''finalize'']
         \<and> map_of (out_state out) ''approved'' = Some (VBool False)
         \<and> map_of (out_state out) ''status'' = Some (VStr ''rejected''))
     \<and> (\<exists>out1 st1.
           invoke human_in_loop_graph human_in_loop_interrupt st (Some tid) (Some s)
             = Some (out1, st1)
         \<and> out_status out1 = Paused
         \<and> (\<forall>a. \<exists>st2 out st3.
               update_state human_in_loop_graph st1 tid [(''approved'', a)] = Inr st2
             \<and> invoke human_in_loop_graph human_in_loop_interrupt st2 (Some tid) None
                 = Some (out, st3)
             \<and> out_status out = Completed \<and> out_error out = None
             \<and> out_executed out = [''finalize'']
             \<and> map_of (out_state out) ''approved'' = Some a
             \<and> map_of (out_state out) ''status''
                 = Some (VStr (if truthy a then ''complete'' else ''rejected''))))
     \<and> (\<forall>s' a. map_of s' ''approved'' = Some a \<longrightarrow>
           finalize s'
             = Inr [(''status'', VStr (if truthy a then ''complete'' else ''rejected''))])
     \<and> truthy (VBool True) \<and> \<not> truthy (VBool False)"
proof -
  obtain out1 st1 where f:
    "invoke human_in_loop_graph human_in_loop_interrupt st (Some tid) (Some s)
       = Some (out1, st1)"
    "out_status out1 = Paused"
    and g: "\<And>a. \<exists>st2 out st3.
               update_state human_in_loop_graph st1 tid [(''approved'', a)] = Inr st2
             \<and> invoke human_in_loop_graph human_in_loop_interrupt st2 (Some tid) None
                 = Some (out, st3)
             \<and> out_status out = Completed \<and> out_error out = None
             \<and> out_executed out = [''finalize'']
             \<and> map_of (out_state out) ''approved'' = Some a
             \<and> map_of (out_state out) ''status''
                 = Some (VStr (if truthy a then ''complete'' else ''rejected''))"
    using human_patch_resume [of st tid s, OF assms] by blast
  have t: "truthy (VBool True)" and nt: "\<not> truthy (VBool False)"
    by (simp_all add: truthy_def)
  have A: "\<exists>out1 st1 st2 out st3.
           invoke human_in_loop_graph human_in_loop_interrupt st (Some tid) (Some s)
             = Some (out1, st1)
         \<and> out_status out1 = Paused
         \<and> update_state human_in_loop_graph st1 tid [(''approved'', VBool True)] = Inr st2
         \<and> invoke human_in_loop_graph human_in_loop_interrupt st2 (Some tid) None
             = Some (out, st3)
         \<and> out_status out = Completed \<and> out_error out = None
         \<and> out_executed out = [''finalize'']
         \<and> map_of (out_state out) ''approved'' = Some (VBool True)
         \<and> map_of (out_state out) ''status'' = Some (VStr ''complete'')"
    using f g [of "VBool True"] t by auto
  have B: "\<exists>out1 st1 st2 out st3.
           invoke human_in_loop_graph human_in_loop_interrupt st (Some tid) (Some s)
             = Some (out1, st1)
         \<and> out_status out1 = Paused
         \<and> update_state human_in_loop_graph st1 tid [(''approved'', VBool False)] = Inr st2
         \<and> invoke human_in_loop_graph human_in_loop_interrupt st2 (Some tid) None
             = Some (out, st3)
         \<and> out_status out = Completed \<and> out_error out = None
         \<and> out_executed out = [''finalize'']
         \<and> map_of (out_state out) ''approved'' = Some (VBool False)
         \<and> map_of (out_state out) ''status'' = Some (VStr ''rejected'')"
    using f g [of "VBool False"] nt by auto
  have C: "\<forall>s' a. map_of s' ''approved'' = Some a \<longrightarrow>
           finalize s'
             = Inr [(''status'', VStr (if truthy a then ''complete'' else ''rejected''))]"
    by (simp add: finalize_def getitem_def)
  from A B human_patch_resume [of st tid s, OF assms] C t nt show ?thesis
    by (intro conjI)
qed

theorem patch_then_resume_witness:
  "fresh_store human_thread_id = None
   \<and> (\<exists>out1 st1 st2 out st3.
          invoke human_in_loop_graph human_in_loop_interrupt fresh_store
            (Some human_thread_id) (Some human_initial_state) = Some (out1, st1)
        \<and> out_status out1 = Paused
        \<and> update_state human_in_loop_graph st1 human_thread_id [(''approved'', VBool True)]
            = Inr st2
        \<and> invoke human_in_loop_graph human_in_loop_interrupt st2 (Some human_thread_id) None
            = Some (out, st3)
        \<and> out_status out = Completed
        \<and> map_of (out_state out) ''approved'' = Some (VBool True)
        \<and> map_of (out_state out) ''status'' = Some (VStr ''complete''))
   \<and> (\<exists>out1 st1 st2 out st3.
          invoke human_in_loop_graph human_in_loop_interrupt fresh_store
            (Some human_thread_id) (Some human_initial_state) = Some (out1, st1)
        \<and> out_status out1 = Paused
        \<and> update_state human_in_loop_graph st1 human_thread_id [(''approved'', VBool False)]
            = Inr st2
        \<and> invoke human_in_loop_graph human_in_loop_interrupt st2 (Some human_thread_id) None
            = Some (out, st3)
        \<and> out_status out = Completed
        \<and> map_of (out_state out) ''approved'' = Some (VBool False)
        \<and> map_of (out_state out) ''status'' = Some (VStr ''rejected''))"
proof -
  have h: "fresh_store human_thread_id = None"
    by (simp add: fresh_store_def)
  note t = patch_then_resume [of fresh_store human_thread_id human_initial_state, OF h]
  have a: "\<exists>out1 st1 st2 out st3.
          invoke human_in_loop_graph human_in_loop_interrupt fresh_store
            (Some human_thread_id) (Some human_initial_state) = Some (out1, st1)
        \<and> out_status out1 = Paused
        \<and> update_state human_in_loop_graph st1 human_thread_id [(''approved'', VBool True)]
            = Inr st2
        \<and> invoke human_in_loop_graph human_in_loop_interrupt st2 (Some human_thread_id) None
            = Some (out, st3)
        \<and> out_status out = Completed
        \<and> map_of (out_state out) ''approved'' = Some (VBool True)
        \<and> map_of (out_state out) ''status'' = Some (VStr ''complete'')"
    using t [THEN conjunct1] by blast
  have b: "\<exists>out1 st1 st2 out st3.
          invoke human_in_loop_graph human_in_loop_interrupt fresh_store
            (Some human_thread_id) (Some human_initial_state) = Some (out1, st1)
        \<and> out_status out1 = Paused
        \<and> update_state human_in_loop_graph st1 human_thread_id [(''approved'', VBool False)]
            = Inr st2
        \<and> invoke human_in_loop_graph human_in_loop_interrupt st2 (Some human_thread_id) None
            = Some (out, st3)
        \<and> out_status out = Completed
        \<and> map_of (out_state out) ''approved'' = Some (VBool False)
        \<and> map_of (out_state out) ''status'' = Some (VStr ''rejected'')"
    using t [THEN conjunct2, THEN conjunct1] by blast
  from h a b show ?thesis
    by (intro conjI)
qed

lemma human_continue:
  assumes "st1 tid = Some \<lparr>cp_state = s1, cp_next = ''finalize'', cp_status = Paused\<rparr>"
  shows "\<exists>out2 st2.
           invoke human_in_loop_graph human_in_loop_interrupt st1 (Some tid) input
             = Some (out2, st2)
         \<and> set (out_executed out2) \<subseteq> {''finalize''}"
proof (cases input)
  case None
  obtain out2 st2 where
    "step_loop human_in_loop_graph human_in_loop_interrupt tid st1 True ''finalize'' s1 []
       = Some (out2, st2)"
    and "out_executed out2 = [''finalize'']"
    using human_resume_run [of tid st1 s1 "[]"] by auto
  with assms None show ?thesis
    by (simp add: invoke_def invoke_thread_def)
next
  case (Some patch)
  show ?thesis
  proof (cases "merge (g_schema human_in_loop_graph) s1 patch")
    case (Inl e)
    with assms Some show ?thesis
      by (simp add: invoke_def invoke_thread_def)
  next
    case (Inr s2)
    let ?st = "st1(tid \<mapsto> \<lparr>cp_state = s2, cp_next = ''finalize'', cp_status = Paused\<rparr>)"
    obtain out2 st2 where
      "step_loop human_in_loop_graph human_in_loop_interrupt tid ?st True ''finalize'' s2 []
         = Some (out2, st2)"
      and "out_executed out2 = [''finalize'']"
      using human_resume_run [of tid ?st s2 "[]"] by auto
    with assms Some Inr show ?thesis
      by (simp add: invoke_def invoke_thread_def)
  qed
qed

text \<open>
  C9.  No run of the graph of human\_in\_loop.py executes auto\_approve.  Whatever the
  state, \<open>extract_amount\<close> returns the amount 500000.0 and requires\_approval true, and
  on the state merged with this update \<open>check_approval_needed\<close> returns
  \<open>wait_approval\<close>.  Hence neither a one-shot call, nor the first call on a thread, nor
  any later call on that thread (a resume, an input, or a resume after \<open>update_state\<close>)
  enters auto\_approve.
\<close>

theorem auto_approve_unreachable:
  "extract_amount s
     = Inr [(''extracted_amount'', VFloat 500000), (''requires_approval'', VBool True)]
   \<and> (\<forall>s1. merge (g_schema human_in_loop_graph) s
               [(''extracted_amount'', VFloat 500000), (''requires_approval'', VBool True)]
             = Inr s1
           \<longrightarrow> check_approval_needed s1 = Inr ''wait_approval'')
   \<and> (\<exists>out st'.
         invoke human_in_loop_graph human_in_loop_interrupt st None (Some s) = Some (out, st')
       \<and> ''auto_approve'' \<notin> set (out_executed out))
   \<and> (st tid = None \<longrightarrow>
        (\<exists>out1 st1.
           invoke human_in_loop_graph human_in_loop_interrupt st (Some tid) (Some s)
             = Some (out1, st1)
         \<and> ''auto_approve'' \<notin> set (out_executed out1)
         \<and> (\<forall>input. \<exists>out2 st2.
               invoke human_in_loop_graph human_in_loop_interrupt st1 (Some tid) input
                 = Some (out2, st2)
             \<and> ''auto_approve'' \<notin> set (out_executed out2))
         \<and> (\<forall>patch st1'.
               update_state human_in_loop_graph st1 tid patch = Inr st1' \<longrightarrow>
               (\<exists>out2 st2.
                  invoke human_in_loop_graph human_in_loop_interrupt st1' (Some tid) None
                    = Some (out2, st2)
                \<and> ''auto_approve'' \<notin> set (out_executed out2)))))"
proof (intro conjI impI)
  show "extract_amount s
     = Inr [(''extracted_amount'', VFloat 500000), (''requires_approval'', VBool True)]"
    by (simp add: extract_amount_def)
  show "\<forall>s1. merge (g_schema human_in_loop_graph) s
               [(''extracted_amount'', VFloat 500000), (''requires_approval'', VBool True)]
             = Inr s1
           \<longrightarrow> check_approval_needed s1 = Inr ''wait_approval''"
    by (auto simp: human_in_loop_graph_def check_approval_needed_def getitem_def truthy_def
        update_conv')
  show "\<exists>out st'.
         invoke human_in_loop_graph human_in_loop_interrupt st None (Some s) = Some (out, st')
       \<and> ''auto_approve'' \<notin> set (out_executed out)"
    by (simp add: invoke_def invoke_thread_def human_first_run)
next
  assume fresh: "st tid = None"
  let ?st1 = "st(tid \<mapsto> \<lparr>cp_state = human_paused s, cp_next = ''finalize'',
                           cp_status = Paused\<rparr>)"
  have 1: "invoke human_in_loop_graph human_in_loop_interrupt st (Some tid) (Some s)
             = Some (\<lparr>out_state = human_paused s, out_status = Paused, out_next = ''finalize'',
            out_error = None, out_executed = [''extract'', ''wait_approval'']\<rparr>, ?st1)"
    using fresh by (simp add: invoke_def invoke_thread_def human_first_run)
  have 2: "\<forall>input. \<exists>out2 st2.
               invoke human_in_loop_graph human_in_loop_interrupt ?st1 (Some tid) input
                 = Some (out2, st2)
             \<and> ''auto_approve'' \<notin> set (out_executed out2)"
  proof
    fix input
    have "?st1 tid = Some \<lparr>cp_state = human_paused s, cp_next = ''finalize'',
                            cp_status = Paused\<rparr>"
      by simp
    from human_continue [of ?st1 tid "human_paused s" input, OF this] show "\<exists>out2 st2.
               invoke human_in_loop_graph human_in_loop_interrupt ?st1 (Some tid) input
                 = Some (out2, st2)
             \<and> ''auto_approve'' \<notin> set (out_executed out2)"
      by auto
  qed
  have 3: "\<forall>patch st1'.
               update_state human_in_loop_graph ?st1 tid patch = Inr st1' \<longrightarrow>
               (\<exists>out2 st2.
                  invoke human_in_loop_graph human_in_loop_interrupt st1' (Some tid) None
                    = Some (out2, st2)
                \<and> ''auto_approve'' \<notin> set (out_executed out2))"
  proof (intro allI impI)
    fix patch st1'
    assume "update_state human_in_loop_graph ?st1 tid patch = Inr st1'"
    then obtain s2 where
      "st1' tid = Some \<lparr>cp_state = s2, cp_next = ''finalize'', cp_status = Paused\<rparr>"
      by (auto simp: update_state_def split: sum.splits)
    from human_continue [of st1' tid s2 None, OF this] show "\<exists>out2 st2.
                  invoke human_in_loop_graph human_in_loop_interrupt st1' (Some tid) None
                    = Some (out2, st2)
                \<and> ''auto_approve'' \<notin> set (out_executed out2)"
      by auto
  qed
  show "\<exists>out1 st1.
           invoke human_in_loop_graph human_in_loop_interrupt st (Some tid) (Some s)
             = Some (out1, st1)
         \<and> ''auto_approve'' \<notin> set (out_executed out1)
         \<and> (\<forall>input. \<exists>out2 st2.
               invoke human_in_loop_graph human_in_loop_interrupt st1 (Some tid) input
                 = Some (out2, st2)
             \<and> ''auto_approve'' \<notin> set (out_executed out2))
         \<and> (\<forall>patch st1'.
               update_state human_in_loop_graph st1 tid patch = Inr st1' \<longrightarrow>
               (\<exists>out2 st2.
                  invoke human_in_loop_graph human_in_loop_interrupt st1' (Some tid) None
                    = Some (out2, st2)
                \<and> ''auto_approve'' \<notin> set (out_executed out2)))"
    using 1 2 3 by (intro exI [of _ "\<lparr>out_state = human_paused s, out_status = Paused, out_next = ''finalize'',
            out_error = None, out_executed = [''extract'', ''wait_approval'']\<rparr>"] exI [of _ ?st1]) simp
qed


theorem auto_approve_unreachable_witness:
  "fresh_store human_thread_id = None
   \<and> extract_amount human_initial_state
       = Inr [(''extracted_amount'', VFloat 500000), (''requires_approval'', VBool True)]
   \<and> (\<exists>out1 st1.
          invoke human_in_loop_graph human_in_loop_interrupt fresh_store
            (Some human_thread_id) (Some human_initial_state) = Some (out1, st1)
        \<and> ''auto_approve'' \<notin> set (out_executed out1)
        \<and> (\<exists>out2 st2.
              invoke human_in_loop_graph human_in_loop_interrupt st1
                (Some human_thread_id) None = Some (out2, st2)
            \<and> ''auto_approve'' \<notin> set (out_executed out2)))"
proof -
  have h: "fresh_store human_thread_id = None"
    by (simp add: fresh_store_def)
  from auto_approve_unreachable [of human_initial_state fresh_store human_thread_id] h
  show ?thesis
    by blast
qed

section \<open>The graph with a branch\<close>


lemma conditional_step1:
  assumes "map_of s ''document'' = Some (VStr d)"
    and "\<not> str_in ''loan'' (lower d)" and "\<not> str_in ''appraisal'' (lower d)"
  shows "step conditional_graph [] False START s =
           ([''classify''],
            Next ''handle_unknown'' (AList.update ''classification'' (VStr ''unknown'') s))"
  using assms
  by (simp add: engine_defs conditional_graph_def conditional_classify_document_def
      val_lower_def classify_label_def route_by_classification_def update_conv')

lemma conditional_step_unknown:
  "step conditional_graph [] False ''handle_unknown'' s =
     ([''handle_unknown''],
      Finish (AList.update ''error_message''
                (VStr ''Document type not recognized. Please review mannually.'') s))"
  by (simp add: engine_defs conditional_graph_def conditional_handle_unknown_def)

lemma conditional_unknown_run:
  assumes "map_of s ''document'' = Some (VStr d)"
    and "\<not> str_in ''loan'' (lower d)" and "\<not> str_in ''appraisal'' (lower d)"
  shows "invoke conditional_graph [] st None (Some s) =
           Some (\<lparr>out_state =
                    AList.update ''error_message''
                      (VStr ''Document type not recognized. Please review mannually.'')
                      (AList.update ''classification'' (VStr ''unknown'') s),
                  out_status = Completed, out_next = END, out_error = None,
                  out_executed = [''classify'', ''handle_unknown'']\<rparr>, st)"
  by (simp add: invoke_def invoke_thread_def step_loop_next [OF conditional_step1 [OF assms]]
      step_loop_finish [OF conditional_step_unknown] halt_def)

lemma test2_not_loan:
  "\<not> str_in ''loan'' (lower ''Random document about something else'')"
  by code_simp

lemma test2_not_appraisal:
  "\<not> str_in ''appraisal'' (lower ''Random document about something else'')"
  by code_simp

lemma test2_document:
  "map_of conditional_test2_input ''document''
     = Some (VStr ''Random document about something else'')"
  by (simp add: conditional_test2_input_def)

lemmas test2_run =
  conditional_unknown_run [OF test2_document test2_not_loan test2_not_appraisal]

text \<open>
  C8.  In the graph of conditional\_graph.py, when the lower-cased document contains
  neither \<open>loan\<close> nor \<open>appraisal\<close>, \<open>classify_document\<close> produces the classification
  \<open>unknown\<close>, the router returns \<open>handle_unknown\<close> on it, and the run completes with a
  non-empty error\_message; the extract node does not run, and extracted\_data is in the
  final state what it was in the initial state.
\<close>

theorem unknown_branch:
  assumes "map_of s ''document'' = Some (VStr d)"
    and "\<not> str_in ''loan'' (lower d)" and "\<not> str_in ''appraisal'' (lower d)"
  shows "conditional_classify_document s = Inr [(''classification'', VStr ''unknown'')]
    \<and> (\<forall>s'. map_of s' ''classification'' = Some (VStr ''unknown'') \<longrightarrow>
          route_by_classification s' = Inr ''handle_unknown'')
    \<and> (\<exists>out. invoke conditional_graph [] st None (Some s) = Some (out, st)
          \<and> out_status out = Completed \<and> out_error out = None
          \<and> out_executed out = [''classify'', ''handle_unknown'']
          \<and> ''extract'' \<notin> set (out_executed out)
          \<and> (\<exists>m. map_of (out_state out) ''error_message'' = Some (VStr m) \<and> m \<noteq> [])
          \<and> map_of (out_state out) ''extracted_data'' = map_of s ''extracted_data'')"
proof (intro conjI)
  show "conditional_classify_document s = Inr [(''classification'', VStr ''unknown'')]"
    using assms
    by (simp add: conditional_classify_document_def getitem_def val_lower_def
        classify_label_def)
  show "\<forall>s'. map_of s' ''classification'' = Some (VStr ''unknown'') \<longrightarrow>
          route_by_classification s' = Inr ''handle_unknown''"
    by (simp add: route_by_classification_def getitem_def)
  show "\<exists>out. invoke conditional_graph [] st None (Some s) = Some (out, st)
          \<and> out_status out = Completed \<and> out_error out = None
          \<and> out_executed out = [''classify'', ''handle_unknown'']
          \<and> ''extract'' \<notin> set (out_executed out)
          \<and> (\<exists>m. map_of (out_state out) ''error_message'' = Some (VStr m) \<and> m \<noteq> [])
          \<and> map_of (out_state out) ''extracted_data'' = map_of s ''extracted_data''"
    by (simp add: conditional_unknown_run [OF assms] update_conv')
qed

theorem unknown_branch_witness:
  "map_of conditional_test2_input ''document''
     = Some (VStr ''Random document about something else'')
   \<and> \<not> str_in ''loan'' (lower ''Random document about something else'')
   \<and> \<not> str_in ''appraisal'' (lower ''Random document about something else'')
   \<and> (\<exists>out. invoke conditional_graph [] fresh_store None (Some conditional_test2_input)
                = Some (out, fresh_store)
          \<and> out_status out = Completed
          \<and> ''extract'' \<notin> set (out_executed out)
          \<and> (\<exists>m. map_of (out_state out) ''error_message'' = Some (VStr m) \<and> m \<noteq> [])
          \<and> map_of (out_state out) ''extracted_data''
              = map_of conditional_test2_input ''extracted_data'')"
proof -
  from unknown_branch [OF test2_document test2_not_loan test2_not_appraisal, of fresh_store]
    test2_document test2_not_loan test2_not_appraisal
  show ?thesis
    by blast
qed

section \<open>Merge locality\<close>

text \<open>
  C5.  Merging a partial update changes exactly the keys of the partial update: a key the
  partial update does not name keeps what the state held, and a key it names holds the
  value of the partial update.  In particular the update \<open>{"classification": ...}\<close> that
  \<open>classify_document\<close> of basic\_graph.py returns merges into the running state and
  leaves document, extracted\_data and is\_valid (every key but classification) as they
  were.
\<close>

theorem merge_locality:
  "(merge sch s p = Inr s' \<and> k \<notin> fst ` set p \<longrightarrow> map_of s' k = map_of s k)
   \<and> (merge sch s p = Inr s' \<and> distinct (map fst p) \<and> (k, v) \<in> set p \<longrightarrow>
        map_of s' k = Some v)
   \<and> (basic_classify_document s = Inr p \<longrightarrow>
        (\<exists>s'. merge (g_schema basic_graph) s p = Inr s'
           \<and> map_of s' ''document'' = map_of s ''document''
           \<and> map_of s' ''extracted_data'' = map_of s ''extracted_data''
           \<and> map_of s' ''is_valid'' = map_of s ''is_valid''
           \<and> (\<forall>k. k \<noteq> ''classification'' \<longrightarrow> map_of s' k = map_of s k)))"
proof (intro conjI impI)
  assume "merge sch s p = Inr s' \<and> k \<notin> fst ` set p"
  then show "map_of s' k = map_of s k"
    using merge_frame by blast
next
  assume "merge sch s p = Inr s' \<and> distinct (map fst p) \<and> (k, v) \<in> set p"
  then show "map_of s' k = Some v"
    using merge_overwrite by blast
next
  assume "basic_classify_document s = Inr p"
  then obtain c where p: "p = [(''classification'', VStr c)]"
    by (auto simp: basic_classify_document_def split: sum.splits)
  then show "\<exists>s'. merge (g_schema basic_graph) s p = Inr s'
           \<and> map_of s' ''document'' = map_of s ''document''
           \<and> map_of s' ''extracted_data'' = map_of s ''extracted_data''
           \<and> map_of s' ''is_valid'' = map_of s ''is_valid''
           \<and> (\<forall>k. k \<noteq> ''classification'' \<longrightarrow> map_of s' k = map_of s k)"
    by (simp add: basic_graph_def update_conv')
qed


theorem merge_locality_witness:
  "merge (g_schema basic_graph) basic_initial_state
       [(''classification'', VStr ''loan_disclosure'')]
     = Inr [(''document'', VStr ''This is a LOAN disclosure document for $500,000''),
            (''classification'', VStr ''loan_disclosure''),
            (''extracted_data'', VDict []),
            (''is_valid'', VBool False)]
   \<and> ''document'' \<notin> fst ` set [(''classification'', VStr ''loan_disclosure'')]
   \<and> map_of [(''document'', VStr ''This is a LOAN disclosure document for $500,000''),
              (''classification'', VStr ''loan_disclosure''),
              (''extracted_data'', VDict []),
              (''is_valid'', VBool False)] ''document''
       = map_of basic_initial_state ''document''"
proof -
  have m: "merge (g_schema basic_graph) basic_initial_state
       [(''classification'', VStr ''loan_disclosure'')]
     = Inr [(''document'', VStr ''This is a LOAN disclosure document for $500,000''),
            (''classification'', VStr ''loan_disclosure''),
            (''extracted_data'', VDict []),
            (''is_valid'', VBool False)]"
    by (simp add: basic_graph_def basic_initial_state_def)
  have k: "''document'' \<notin> fst ` set [(''classification'', VStr ''loan_disclosure'')]"
    by simp
  from merge_locality [of "g_schema basic_graph" basic_initial_state
      "[(''classification'', VStr ''loan_disclosure'')]"
      "[(''document'', VStr ''This is a LOAN disclosure document for $500,000''),
        (''classification'', VStr ''loan_disclosure''),
        (''extracted_data'', VDict []),
        (''is_valid'', VBool False)]" "''document''"] m k
  show ?thesis
    by blast
qed

section \<open>Keys outside the schema\<close>


lemma test2_final_state:
  "AList.update ''error_message''
     (VStr ''Document type not recognized. Please review mannually.'')
     (AList.update ''classification'' (VStr ''unknown'') conditional_test2_input)
   = [(''document'', VStr ''Random document about something else''),
      (''classification'', VStr ''unknown''),
      (''extrated_data'', VDict []),
      (''error_message'', VStr ''Document type not recognized. Please review mannually.'')]"
  by (simp add: conditional_test2_input_def)

text \<open>
  C6, as stated, fails.  Test 2 of conditional\_graph.py invokes the graph with an input that
  holds the key \<open>extrated_data\<close>, which the schema does not declare.  The input of a new
  run is taken as the initial state without a merge, so the call is not rejected: the run
  completes through handle\_unknown without an error.
\<close>

theorem undeclared_input_counterexample:
  "''extrated_data'' \<in> fst ` set conditional_test2_input
   \<and> ''extrated_data'' \<notin> set (g_schema conditional_graph)
   \<and> invoke conditional_graph [] fresh_store None (Some conditional_test2_input)
       = Some (\<lparr>out_state =
                  [(''document'', VStr ''Random document about something else''),
                   (''classification'', VStr ''unknown''),
                   (''extrated_data'', VDict []),
                   (''error_message'',
                    VStr ''Document type not recognized. Please review mannually.'')],
                out_status = Completed, out_next = END, out_error = None,
                out_executed = [''classify'', ''handle_unknown'']\<rparr>, fresh_store)"
  by (simp add: test2_run test2_final_state)
     (simp add: conditional_test2_input_def conditional_graph_def)

lemma update_state_undeclared:
  assumes "st tid = Some cp" and "merge (g_schema g) (cp_state cp) p = Inl e"
  shows "update_state g st tid p = Inl e"
  using assms by (simp add: update_state_def)

lemma invoke_patch_undeclared:
  assumes "st tid = Some cp" and "merge (g_schema g) (cp_state cp) p = Inl e"
  shows "invoke g ib st (Some tid) (Some p) =
           Some (\<lparr>out_state = cp_state cp, out_status = Failed, out_next = cp_next cp,
                  out_error = Some e, out_executed = []\<rparr>,
                 st(tid \<mapsto> cp\<lparr>cp_status := Failed\<rparr>))"
  using assms by (simp add: invoke_def invoke_thread_def)

text \<open>
  C6, amended.  Merging a partial update with a key that the schema does not declare fails
  with \<open>UnknownFieldError\<close> instead of accepting or dropping the key; so do
  \<open>update_state\<close> and an input given to a thread that has a checkpoint, which merge into
  the stored state.  The input of a new run is not merged: \<open>invoke\<close> starts the step loop
  on it as it is, and the Test 2 call of conditional\_graph.py, whose input holds the
  undeclared key \<open>extrated_data\<close>, completes without an error.
\<close>

theorem merge_rejects_undeclared_key:
  "(k \<in> fst ` set p \<and> k \<notin> set sch \<longrightarrow>
      (\<exists>k'. k' \<in> fst ` set p \<and> k' \<notin> set sch \<and> merge sch s p = Inl (UnknownFieldError k')))
   \<and> (st tid = Some cp \<and> k \<in> fst ` set p \<and> k \<notin> set (g_schema g) \<longrightarrow>
        (\<exists>k'. update_state g st tid p = Inl (UnknownFieldError k'))
        \<and> (\<exists>out st' k'. invoke g ib st (Some tid) (Some p) = Some (out, st')
              \<and> out_status out = Failed \<and> out_error out = Some (UnknownFieldError k')))
   \<and> (st tid = None \<longrightarrow>
        invoke g ib st (Some tid) (Some s) = step_loop g ib tid st False START s [])
   \<and> (\<exists>out. invoke conditional_graph [] st None (Some conditional_test2_input)
                = Some (out, st)
          \<and> out_status out = Completed \<and> out_error out = None)"
proof (intro conjI impI)
  assume "k \<in> fst ` set p \<and> k \<notin> set sch"
  then show "\<exists>k'. k' \<in> fst ` set p \<and> k' \<notin> set sch \<and> merge sch s p = Inl (UnknownFieldError k')"
    using merge_undeclared by blast
next
  assume a: "st tid = Some cp \<and> k \<in> fst ` set p \<and> k \<notin> set (g_schema g)"
  then obtain k' where m: "merge (g_schema g) (cp_state cp) p = Inl (UnknownFieldError k')"
    using merge_undeclared by blast
  from a m show "\<exists>k'. update_state g st tid p = Inl (UnknownFieldError k')"
    by (simp add: update_state_undeclared)
  from a m show "\<exists>out st' k'. invoke g ib st (Some tid) (Some p) = Some (out, st')
              \<and> out_status out = Failed \<and> out_error out = Some (UnknownFieldError k')"
    by (simp add: invoke_patch_undeclared)
next
  assume "st tid = None"
  then show "invoke g ib st (Some tid) (Some s) = step_loop g ib tid st False START s []"
    by (simp add: invoke_def invoke_thread_def)
next
  show "\<exists>out. invoke conditional_graph [] st None (Some conditional_test2_input)
                = Some (out, st)
          \<and> out_status out = Completed \<and> out_error out = None"
    by (simp add: test2_run)
qed

theorem merge_rejects_undeclared_key_witness:
  "''extrated_data'' \<in> fst ` set conditional_test2_input
   \<and> ''extrated_data'' \<notin> set (g_schema conditional_graph)
   \<and> (\<exists>k'. k' \<in> fst ` set conditional_test2_input
          \<and> k' \<notin> set (g_schema conditional_graph)
          \<and> merge (g_schema conditional_graph) [] conditional_test2_input
              = Inl (UnknownFieldError k'))
   \<and> fresh_store human_thread_id = None
   \<and> invoke conditional_graph [] fresh_store (Some human_thread_id)
        (Some conditional_test2_input)
       = step_loop conditional_graph [] human_thread_id fresh_store False START
           conditional_test2_input []"
proof -
  have a: "''extrated_data'' \<in> fst ` set conditional_test2_input"
    by (simp add: conditional_test2_input_def)
  have b: "''extrated_data'' \<notin> set (g_schema conditional_graph)"
    by (simp add: conditional_graph_def)
  have c: "fresh_store human_thread_id = None"
    by (simp add: fresh_store_def)
  have 1: "\<exists>k'. k' \<in> fst ` set conditional_test2_input
          \<and> k' \<notin> set (g_schema conditional_graph)
          \<and> merge (g_schema conditional_graph) [] conditional_test2_input
              = Inl (UnknownFieldError k')"
    using merge_rejects_undeclared_key [where k = "''extrated_data''"
      and p = conditional_test2_input and sch = "g_schema conditional_graph" and s = "[]",
      THEN conjunct1] a b
    by (elim impE) (rule conjI)
  have 2: "invoke conditional_graph [] fresh_store (Some human_thread_id)
        (Some conditional_test2_input)
       = step_loop conditional_graph [] human_thread_id fresh_store False START
           conditional_test2_input []"
    using merge_rejects_undeclared_key [where st = fresh_store and tid = human_thread_id
      and g = conditional_graph and ib = "[]" and s = conditional_test2_input,
      THEN conjunct2, THEN conjunct2, THEN conjunct1] c
    by (elim impE)
  from a b 1 c 2 show ?thesis
    by (intro conjI)
qed



section \<open>Fields the caller leaves out\<close>













lemma routers_total_conditional: "routers_total conditional_graph"
  by (auto simp: routers_total_def conditional_graph_def START_def
      route_by_classification_def split: if_splits sum.splits)

lemma routers_total_human: "routers_total human_in_loop_graph"
  by (auto simp: routers_total_def human_in_loop_graph_def START_def
      check_approval_needed_def split: if_splits sum.splits)

lemma routers_total_ai:
  "routers_total (ai_workflow_graph classify_with_llm extract_loan_data extract_appraisal_data)"
  by (auto simp: routers_total_def ai_workflow_graph_def START_def
      route_by_type_def split: if_splits sum.splits)

lemma invoke_thread_no_routing_error:
  assumes "invoke_thread g ib st tid input = Some (out, st')" and "routers_total g"
  shows "out_error out \<noteq> Some (RoutingError l)"
proof (cases "st tid")
  case None
  show ?thesis
  proof (cases input)
    case inone: None
    with None assms(1) show ?thesis
      by (auto simp: invoke_thread_def)
  next
    case (Some s)
    with None assms(1) have "step_loop g ib tid st False START s [] = Some (out, st')"
      by (simp add: invoke_thread_def)
    from step_loop_no_routing_error [OF this assms(2)] show ?thesis
      by simp
  qed
next
  case (Some cp)
  show ?thesis
  proof (cases input)
    case None
    show ?thesis
    proof (cases "cp_status cp = Completed \<or> cp_status cp = Failed")
      case True
      with Some None assms(1) show ?thesis
        by (auto simp: invoke_thread_def)
    next
      case False
      with Some None assms(1) have
        "step_loop g ib tid st (cp_status cp = Paused) (cp_next cp) (cp_state cp) []
           = Some (out, st')"
        by (simp add: invoke_thread_def)
      from step_loop_no_routing_error [OF this assms(2)] show ?thesis
        by simp
    qed
  next
    case isome: (Some patch)
    show ?thesis
    proof (cases "merge (g_schema g) (cp_state cp) patch")
      case (Inl e)
      with Some isome assms(1) merge_not_routing [OF Inl] show ?thesis
        by (auto simp: invoke_thread_def)
    next
      case (Inr s)
      with Some isome assms(1) have
        "step_loop g ib tid (st(tid \<mapsto> cp\<lparr>cp_state := s\<rparr>)) (cp_status cp = Paused)
           (cp_next cp) s [] = Some (out, st')"
        by (simp add: invoke_thread_def)
      from step_loop_no_routing_error [OF this assms(2)] show ?thesis
        by simp
    qed
  qed
qed

lemma invoke_no_routing_error:
  assumes "invoke g ib st thread input = Some (out, st')" and "routers_total g"
  shows "out_error out \<noteq> Some (RoutingError l)"
proof (cases thread)
  case None
  with assms(1) obtain st'' where
    "invoke_thread g ib Map.empty [] input = Some (out, st'')"
    by (auto simp: invoke_def split: option.splits)
  from invoke_thread_no_routing_error [OF this assms(2)] show ?thesis .
next
  case (Some tid)
  with assms(1) have "invoke_thread g ib st tid input = Some (out, st')"
    by (simp add: invoke_def)
  from invoke_thread_no_routing_error [OF this assms(2)] show ?thesis .
qed

lemma untabled_label_fails:
  assumes "n \<noteq> START" and "n \<notin> set ib \<or> resumed"
    and "map_of (g_nodes g) n = Some fn" and "fn s = Inr p"
    and "merge (g_schema g) s p = Inr s'"
    and "map_of (g_edges g) n = Some (Conditional router table)"
    and "router s' = Inr label" and "map_of table label = None"
  shows "step_loop g ib tid st resumed n s tr =
           Some (\<lparr>out_state = s', out_status = Failed, out_next = n,
                  out_error = Some (RoutingError label), out_executed = tr @ [n]\<rparr>,
                 st(tid \<mapsto> \<lparr>cp_state = s', cp_next = n, cp_status = Failed\<rparr>))"
proof -
  have "step g ib resumed n s = ([n], Fail (RoutingError label) s' n)"
    using assms by (auto simp: step_def resolve_candidate_def next_transition_def)
  from step_loop_fail [OF this] show ?thesis
    by (simp add: halt_def)
qed


section \<open>Routing\<close>

text \<open>
  C4.  Whatever the state, a label that \<open>route_by_classification\<close>,
  \<open>check_approval_needed\<close> or \<open>route_by_type\<close> returns is a key of the routing table of
  its conditional edge (for ai\_workflow.py whatever the nodes that call the language model
  return), so no call of \<open>invoke\<close> on these graphs ends with a \<open>RoutingError\<close>.  In any
  graph, a node whose router returns a label outside its table ends the run: the status is
  failed, the error is \<open>RoutingError\<close>, and the state is the merged state on which the
  router ran.
\<close>

theorem routing_totality:
  "routers_total conditional_graph
   \<and> routers_total human_in_loop_graph
   \<and> routers_total (ai_workflow_graph classify_with_llm extract_loan_data extract_appraisal_data)
   \<and> (invoke g ib st thread input = Some (out, st')
        \<and> (g = conditional_graph \<or> g = human_in_loop_graph
             \<or> g = ai_workflow_graph classify_with_llm extract_loan_data
                     extract_appraisal_data) \<longrightarrow>
        out_error out \<noteq> Some (RoutingError label))
   \<and> (n \<noteq> START \<and> (n \<notin> set ib \<or> resumed)
        \<and> map_of (g_nodes g) n = Some fn \<and> fn s = Inr p
        \<and> merge (g_schema g) s p = Inr s'
        \<and> map_of (g_edges g) n = Some (Conditional router table)
        \<and> router s' = Inr label \<and> map_of table label = None \<longrightarrow>
        step_loop g ib tid st resumed n s tr =
          Some (\<lparr>out_state = s', out_status = Failed, out_next = n,
                 out_error = Some (RoutingError label), out_executed = tr @ [n]\<rparr>,
                st(tid \<mapsto> \<lparr>cp_state = s', cp_next = n, cp_status = Failed\<rparr>)))"
proof (intro conjI impI)
  show "routers_total conditional_graph"
    by (rule routers_total_conditional)
  show "routers_total human_in_loop_graph"
    by (rule routers_total_human)
  show "routers_total
          (ai_workflow_graph classify_with_llm extract_loan_data extract_appraisal_data)"
    by (rule routers_total_ai)
next
  assume a: "invoke g ib st thread input = Some (out, st')
        \<and> (g = conditional_graph \<or> g = human_in_loop_graph
             \<or> g = ai_workflow_graph classify_with_llm extract_loan_data
                     extract_appraisal_data)"
  then have "routers_total g"
    using routers_total_conditional routers_total_human routers_total_ai by blast
  with a show "out_error out \<noteq> Some (RoutingError label)"
    using invoke_no_routing_error by blast
next
  assume "n \<noteq> START \<and> (n \<notin> set ib \<or> resumed)
        \<and> map_of (g_nodes g) n = Some fn \<and> fn s = Inr p
        \<and> merge (g_schema g) s p = Inr s'
        \<and> map_of (g_edges g) n = Some (Conditional router table)
        \<and> router s' = Inr label \<and> map_of table label = None"
  then have "n \<noteq> START" and "n \<notin> set ib \<or> resumed"
    and "map_of (g_nodes g) n = Some fn" and "fn s = Inr p"
    and "merge (g_schema g) s p = Inr s'"
    and "map_of (g_edges g) n = Some (Conditional router table)"
    and "router s' = Inr label" and "map_of table label = None"
    by blast+
  then show "step_loop g ib tid st resumed n s tr =
          Some (\<lparr>out_state = s', out_status = Failed, out_next = n,
                 out_error = Some (RoutingError label), out_executed = tr @ [n]\<rparr>,
                st(tid \<mapsto> \<lparr>cp_state = s', cp_next = n, cp_status = Failed\<rparr>))"
    by (rule untabled_label_fails)
qed

theorem routing_totality_witness:
  "''classify'' \<noteq> START
   \<and> conditional_classify_document conditional_test2_input
       = Inr [(''classification'', VStr ''unknown'')]
   \<and> merge (g_schema conditional_graph) conditional_test2_input
        [(''classification'', VStr ''unknown'')]
       = Inr (AList.update ''classification'' (VStr ''unknown'') conditional_test2_input)
   \<and> route_by_classification
        (AList.update ''classification'' (VStr ''unknown'') conditional_test2_input)
       = Inr ''handle_unknown''
   \<and> map_of [(''extract'', ''extract'')] ''handle_unknown'' = None
   \<and> step_loop
        \<lparr>g_schema = g_schema conditional_graph, g_nodes = g_nodes conditional_graph,
         g_edges = [(''classify'',
                     Conditional route_by_classification [(''extract'', ''extract'')])]\<rparr>
        [] human_thread_id fresh_store False ''classify'' conditional_test2_input []
       = Some (\<lparr>out_state =
                  AList.update ''classification'' (VStr ''unknown'') conditional_test2_input,
                out_status = Failed, out_next = ''classify'',
                out_error = Some (RoutingError ''handle_unknown''),
                out_executed = [] @ [''classify'']\<rparr>,
               fresh_store(human_thread_id \<mapsto>
                 \<lparr>cp_state =
                    AList.update ''classification'' (VStr ''unknown'')
                      conditional_test2_input,
                  cp_next = ''classify'', cp_status = Failed\<rparr>))"
proof -
  let ?g = "\<lparr>g_schema = g_schema conditional_graph, g_nodes = g_nodes conditional_graph,
         g_edges = [(''classify'',
                     Conditional route_by_classification [(''extract'', ''extract'')])]\<rparr>"
  let ?s' = "AList.update ''classification'' (VStr ''unknown'') conditional_test2_input"
  have 1: "''classify'' \<noteq> START"
    by (simp add: START_def)
  have 2: "''classify'' \<notin> set [] \<or> False"
    by simp
  have 3: "map_of (g_nodes ?g) ''classify'' = Some conditional_classify_document"
    by (simp add: conditional_graph_def)
  have 4: "conditional_classify_document conditional_test2_input
       = Inr [(''classification'', VStr ''unknown'')]"
    using test2_document test2_not_loan test2_not_appraisal
    by (simp add: conditional_classify_document_def getitem_def val_lower_def
        classify_label_def)
  have 5: "merge (g_schema ?g) conditional_test2_input
        [(''classification'', VStr ''unknown'')] = Inr ?s'"
    by (simp add: conditional_graph_def)
  have 6: "map_of (g_edges ?g) ''classify''
             = Some (Conditional route_by_classification [(''extract'', ''extract'')])"
    by simp
  have 7: "route_by_classification ?s' = Inr ''handle_unknown''"
    by (simp add: route_by_classification_def getitem_def update_conv')
  have 8: "map_of [(''extract'', ''extract'')] ''handle_unknown'' = None"
    by simp
  have 9: "step_loop ?g [] human_thread_id fresh_store False ''classify''
             conditional_test2_input []
       = Some (\<lparr>out_state = ?s', out_status = Failed, out_next = ''classify'',
                out_error = Some (RoutingError ''handle_unknown''),
                out_executed = [] @ [''classify'']\<rparr>,
               fresh_store(human_thread_id \<mapsto>
                 \<lparr>cp_state = ?s', cp_next = ''classify'', cp_status = Failed\<rparr>))"
    using routing_totality [where g = ?g and n = "''classify''" and ib = "[]"
        and resumed = False and fn = conditional_classify_document
        and s = conditional_test2_input and p = "[(''classification'', VStr ''unknown'')]"
        and s' = ?s' and router = route_by_classification
        and table = "[(''extract'', ''extract'')]" and label = "''handle_unknown''"
        and tid = human_thread_id and st = fresh_store and tr = "[]",
        THEN conjunct2, THEN conjunct2, THEN conjunct2, THEN conjunct2]
      1 2 3 4 5 6 7 8
    by (elim impE) (intro conjI)
  have m: "merge (g_schema conditional_graph) conditional_test2_input
        [(''classification'', VStr ''unknown'')] = Inr ?s'"
    using 5 by simp
  from 1 4 m 7 8 9 show ?thesis
    by (intro conjI)
qed

end
